theory Spec2Isabelle
  imports Main "HOL-Library.Word"
begin

section \<open>Gecko code configuration (Core/GeckoCodeConfig.cpp)\<close>

subsection \<open>Data model\<close>

type_synonym u32 = "32 word"

text \<open>
  Modelled from the spec: the declaration of \<open>GeckoCode::Code\<close> (Core/GeckoCodeConfig.h)
  is not part of the sources at hand. A patch has an address, a value and the verbatim
  source line; a default-constructed patch has zero address and value and no text. The
  text format writes address and value with eight hexadecimal digits each, so both are
  unsigned 32-bit numbers.
\<close>

record Code =
  address :: u32
  data :: u32
  original_line :: string

definition Code_init :: Code where
  "Code_init = \<lparr>address = 0, data = 0, original_line = []\<rparr>"

text \<open>
  Modelled from the spec: the declaration of \<open>GeckoCode\<close> (Core/GeckoCodeConfig.h) is not
  part of the sources at hand. The fields are the ones the functions below read and write;
  a default-constructed entry has empty strings and sequences and all flags false.
\<close>

record GeckoCode =
  codes :: "Code list"
  name :: string
  creator :: string
  notes' :: "string list"
  enabled :: bool
  bootstrap_enabled :: bool
  user_defined :: bool

definition GeckoCode_init :: GeckoCode where
  "GeckoCode_init = \<lparr>codes = [], name = [], creator = [], notes' = [],
     enabled = False, bootstrap_enabled = False, user_defined = False\<rparr>"

text \<open>
  Modelled from the spec: \<open>IniFile\<close> (Common/IniFile.h) is the external storage service, a
  mapping from a section name to an ordered sequence of text lines with the operations
  \<open>get_lines\<close> and \<open>set_lines\<close>. A section that is absent yields no lines.
\<close>

type_synonym IniFile = "string \<rightharpoonup> string list"

definition GetLines :: "IniFile \<Rightarrow> string \<Rightarrow> string list" where
  "GetLines ini section_name = (case ini section_name of None \<Rightarrow> [] | Some ls \<Rightarrow> ls)"

definition SetLines :: "IniFile \<Rightarrow> string \<Rightarrow> string list \<Rightarrow> IniFile" where
  "SetLines ini section_name ls = ini(section_name \<mapsto> ls)"

text \<open>
  Modelled from the spec: \<open>StripSpaces\<close> (Common/StringUtil.h) is not part of the sources at
  hand; it trims the surrounding whitespace (blank, tab, carriage return, line feed) of a
  string.
\<close>

definition is_strip_space :: "char \<Rightarrow> bool" where
  "is_strip_space c \<longleftrightarrow> c = CHR '' '' \<or> c = CHR 0x09 \<or> c = CHR 0x0D \<or> c = CHR 0x0A"

definition StripSpaces :: "string \<Rightarrow> string" where
  "StripSpaces str = rev (dropWhile is_strip_space (rev (dropWhile is_strip_space str)))"

subsection \<open>Reading two hexadecimal numbers from a line\<close>

text \<open>
  The statement \<open>ss >> std::hex >> new_code.address >> new_code.data\<close> reads from a string
  stream. The stream is the text not yet consumed together with the flag that no read has
  failed so far. One formatted read of an unsigned 32-bit number in base 16 does nothing on
  a stream that has already failed; otherwise it skips white space, fails without touching
  the variable when the text ends there, and else takes an optional sign, an optional
  \<open>0x\<close> prefix and the longest run of hexadecimal digits. No digit: the variable becomes
  zero and the stream fails. A number beyond 32 bits: the variable becomes the largest
  value and the stream fails.
\<close>

type_synonym istream = "string \<times> bool"

definition is_cspace :: "char \<Rightarrow> bool" where
  "is_cspace c \<longleftrightarrow> c = CHR '' '' \<or> c = CHR 0x09 \<or> c = CHR 0x0A \<or> c = CHR 0x0B
     \<or> c = CHR 0x0C \<or> c = CHR 0x0D"

definition hex_digit :: "char \<Rightarrow> int option" where
  "hex_digit c =
     (let n = of_char c :: int in
      if 48 \<le> n \<and> n \<le> 57 then Some (n - 48)
      else if 65 \<le> n \<and> n \<le> 70 then Some (n - 55)
      else if 97 \<le> n \<and> n \<le> 102 then Some (n - 87)
      else None)"

definition is_xdigit :: "char \<Rightarrow> bool" where
  "is_xdigit c \<longleftrightarrow> hex_digit c \<noteq> None"

fun hex_value :: "int \<Rightarrow> string \<Rightarrow> int" where
  "hex_value acc [] = acc"
| "hex_value acc (c # cs) =
     hex_value (16 * acc + (case hex_digit c of None \<Rightarrow> 0 | Some d \<Rightarrow> d)) cs"

fun strip_sign :: "string \<Rightarrow> bool \<times> string" where
  "strip_sign [] = (False, [])"
| "strip_sign (c # cs) =
     (if c = CHR ''-'' then (True, cs)
      else if c = CHR ''+'' then (False, cs)
      else (False, c # cs))"

fun strip_0x :: "string \<Rightarrow> string" where
  "strip_0x (a # b # cs) =
     (if a = CHR ''0'' \<and> (b = CHR ''x'' \<or> b = CHR ''X'') then cs else a # b # cs)"
| "strip_0x cs = cs"

text \<open>
  The field that one read looks at: the sign, the digits and the text behind them.
\<close>

definition scan_field :: "string \<Rightarrow> bool \<times> string \<times> string" where
  "scan_field s =
     (let (negative, s2) = strip_sign (dropWhile is_cspace s);
          s3 = strip_0x s2
      in (negative, takeWhile is_xdigit s3, dropWhile is_xdigit s3))"

definition extract_hex :: "istream \<Rightarrow> u32 \<Rightarrow> istream \<times> u32" where
  "extract_hex ss v =
     (case ss of (s, good) \<Rightarrow>
        if \<not> good then (ss, v)
        else if dropWhile is_cspace s = [] then (([], False), v)
        else
          (case scan_field s of (negative, digits, rest) \<Rightarrow>
             let n = hex_value 0 digits
             in if digits = [] then ((rest, False), 0)
                else if n > 4294967295 then ((rest, False), - 1)
                else ((rest, True), if negative then - word_of_int n else word_of_int n)))"

text \<open>The patch built from a line of the default case of \<open>ParseCodes\<close>.\<close>

definition read_code :: "string \<Rightarrow> Code" where
  "read_code line =
     (let new_code = Code_init\<lparr>original_line := line\<rparr>;
          (ss1, a) = extract_hex (line, True) (address new_code);
          (ss2, d) = extract_hex ss1 (data new_code)
      in new_code\<lparr>address := a, data := d\<rparr>)"

subsection \<open>ParseCodes\<close>

text \<open>
  The header case: skip the dollar sign, read the name up to the first opening bracket and
  strip it, read the creator up to the first closing bracket after that. When there is no
  opening bracket the first read ends the stream and the creator stays empty.
\<close>

definition not_char :: "char \<Rightarrow> char \<Rightarrow> bool" where
  "not_char d c \<longleftrightarrow> c \<noteq> d"

definition read_header :: "bool \<Rightarrow> string \<Rightarrow> GeckoCode" where
  "read_header is_user_ini line =
     (let ss = drop 1 line;
          nm = takeWhile (not_char (CHR ''['')) ss;
          ss' = drop 1 (dropWhile (not_char (CHR ''['')) ss);
          cr = takeWhile (not_char (CHR '']'')) ss'
      in GeckoCode_init\<lparr>user_defined := is_user_ini, name := StripSpaces nm, creator := cr\<rparr>)"

text \<open>
  The state of the loop is the output vector \<open>gcodes\<close> and the entry in progress \<open>gcode\<close>.
\<close>

fun ParseCodes_line :: "bool \<Rightarrow> string \<Rightarrow> GeckoCode list \<times> GeckoCode \<Rightarrow> GeckoCode list \<times> GeckoCode" where
  "ParseCodes_line is_user_ini [] (gcodes, gcode) = (gcodes, gcode)"
| "ParseCodes_line is_user_ini (c # cs) (gcodes, gcode) =
     (if c = CHR ''$'' then
        ((if name gcode \<noteq> [] then gcodes @ [gcode] else gcodes),
         read_header is_user_ini (c # cs))
      else if c = CHR ''*'' then
        (gcodes, gcode\<lparr>notes' := notes' gcode @ [cs]\<rparr>)
      else
        (gcodes, gcode\<lparr>codes := codes gcode @ [read_code (c # cs)]\<rparr>))"

fun ParseCodes_loop :: "bool \<Rightarrow> string list \<Rightarrow> GeckoCode list \<times> GeckoCode \<Rightarrow> GeckoCode list \<times> GeckoCode" where
  "ParseCodes_loop is_user_ini [] st = st"
| "ParseCodes_loop is_user_ini (line # lines) st =
     ParseCodes_loop is_user_ini lines (ParseCodes_line is_user_ini line st)"

definition add_last :: "GeckoCode list \<times> GeckoCode \<Rightarrow> GeckoCode list" where
  "add_last st = (case st of (gcodes, gcode) \<Rightarrow>
     if name gcode \<noteq> [] then gcodes @ [gcode] else gcodes)"

definition ParseCodes :: "IniFile \<Rightarrow> GeckoCode list \<Rightarrow> bool \<Rightarrow> GeckoCode list" where
  "ParseCodes ini gcodes is_user_ini =
     add_last (ParseCodes_loop is_user_ini (GetLines ini ''Gecko'') (gcodes, GeckoCode_init))"

subsection \<open>MarkEnabledCodes and MarkBootstrapCodes\<close>

fun mark_enabled_name :: "string \<Rightarrow> GeckoCode list \<Rightarrow> GeckoCode list" where
  "mark_enabled_name nm [] = []"
| "mark_enabled_name nm (ogcode # gcodes) =
     (if name ogcode = nm then ogcode\<lparr>enabled := True\<rparr> else ogcode)
       # mark_enabled_name nm gcodes"

fun MarkEnabledCodes_loop :: "string list \<Rightarrow> GeckoCode list \<Rightarrow> GeckoCode list" where
  "MarkEnabledCodes_loop [] gcodes = gcodes"
| "MarkEnabledCodes_loop (line # lines) gcodes =
     (if length line = 0 \<or> hd line \<noteq> CHR ''$'' then MarkEnabledCodes_loop lines gcodes
      else MarkEnabledCodes_loop lines (mark_enabled_name (drop 1 line) gcodes))"

definition MarkEnabledCodes :: "IniFile \<Rightarrow> GeckoCode list \<Rightarrow> GeckoCode list" where
  "MarkEnabledCodes localIni gcodes =
     MarkEnabledCodes_loop (GetLines localIni ''Gecko_Enabled'') gcodes"

fun mark_bootstrap_name :: "string \<Rightarrow> GeckoCode list \<Rightarrow> GeckoCode list" where
  "mark_bootstrap_name nm [] = []"
| "mark_bootstrap_name nm (ogcode # gcodes) =
     (if name ogcode = nm then ogcode\<lparr>bootstrap_enabled := True\<rparr> else ogcode)
       # mark_bootstrap_name nm gcodes"

fun MarkBootstrapCodes_loop :: "string list \<Rightarrow> GeckoCode list \<Rightarrow> GeckoCode list" where
  "MarkBootstrapCodes_loop [] gcodes = gcodes"
| "MarkBootstrapCodes_loop (line # lines) gcodes =
     (if length line = 0 \<or> hd line \<noteq> CHR ''$'' then MarkBootstrapCodes_loop lines gcodes
      else MarkBootstrapCodes_loop lines (mark_bootstrap_name (drop 1 line) gcodes))"

definition MarkBootstrapCodes :: "IniFile \<Rightarrow> GeckoCode list \<Rightarrow> GeckoCode list" where
  "MarkBootstrapCodes globalIni gcodes =
     MarkBootstrapCodes_loop (GetLines globalIni ''Gecko_Enabled'') gcodes"

subsection \<open>MergeCodes\<close>

fun push_all :: "GeckoCode list \<Rightarrow> GeckoCode list \<Rightarrow> GeckoCode list" where
  "push_all [] working_set = working_set"
| "push_all (global_code # global_codes) working_set =
     push_all global_codes (working_set @ [global_code])"

fun conflict :: "GeckoCode list \<Rightarrow> GeckoCode \<Rightarrow> bool" where
  "conflict [] local_code = False"
| "conflict (working_code # working_set) local_code =
     (if name working_code = name local_code then True
      else conflict working_set local_code)"

fun add_local_codes :: "GeckoCode list \<Rightarrow> GeckoCode list \<Rightarrow> GeckoCode list" where
  "add_local_codes [] working_set = working_set"
| "add_local_codes (local_code # local_codes) working_set =
     (if conflict working_set local_code = False
      then add_local_codes local_codes (working_set @ [local_code])
      else add_local_codes local_codes working_set)"

definition MergeCodes :: "IniFile \<Rightarrow> IniFile \<Rightarrow> GeckoCode list \<Rightarrow> GeckoCode list" where
  "MergeCodes globalIni localIni working_set =
     (let global_codes = ParseCodes globalIni [] False;
          working_set' = push_all global_codes working_set;
          local_codes = ParseCodes localIni [] True
      in add_local_codes local_codes working_set')"

subsection \<open>FillLines, FillIni and BootstrapLocalConfig\<close>

fun push_code_lines :: "Code list \<Rightarrow> string list \<Rightarrow> string list" where
  "push_code_lines [] lines = lines"
| "push_code_lines (code # cs) lines = push_code_lines cs (lines @ [original_line code])"

fun push_note_lines :: "string list \<Rightarrow> string list \<Rightarrow> string list" where
  "push_note_lines [] lines = lines"
| "push_note_lines (note # ns) lines = push_note_lines ns (lines @ [''*'' @ note])"

definition FillLines :: "string list \<times> string list \<Rightarrow> GeckoCode \<Rightarrow> string list \<times> string list" where
  "FillLines st gcode = (case st of (lines, enabledLines) \<Rightarrow>
     let enabledLines' = (if enabled gcode then enabledLines @ [''$'' @ name gcode]
                          else enabledLines)
     in if \<not> user_defined gcode then (lines, enabledLines')
        else
          let nm = [] @ [CHR ''$''] @ name gcode;
              nm' = (if length (creator gcode) \<noteq> 0
                     then nm @ '' ['' @ creator gcode @ [CHR '']'']
                     else nm);
              lines1 = lines @ [nm'];
              lines2 = push_code_lines (codes gcode) lines1;
              lines3 = push_note_lines (notes' gcode) lines2
          in (lines3, enabledLines'))"

fun FillIni_loop :: "GeckoCode list \<Rightarrow> string list \<times> string list \<Rightarrow> string list \<times> string list" where
  "FillIni_loop [] st = st"
| "FillIni_loop (geckoCode # gcodes) st = FillIni_loop gcodes (FillLines st geckoCode)"

definition FillIni :: "IniFile \<Rightarrow> GeckoCode list \<Rightarrow> IniFile" where
  "FillIni inifile gcodes =
     (case FillIni_loop gcodes ([], []) of (lines, enabledLines) \<Rightarrow>
        SetLines (SetLines inifile ''Gecko'' lines) ''Gecko_Enabled'' enabledLines)"

fun bootstrap_lines :: "GeckoCode list \<Rightarrow> string list \<Rightarrow> string list" where
  "bootstrap_lines [] enabledLines = enabledLines"
| "bootstrap_lines (geckoCode # global_codes) enabledLines =
     bootstrap_lines global_codes
       (if bootstrap_enabled geckoCode then enabledLines @ [''$'' @ name geckoCode]
        else enabledLines)"

definition BootstrapLocalConfig :: "IniFile \<Rightarrow> GeckoCode list \<Rightarrow> IniFile" where
  "BootstrapLocalConfig local_ini global_codes =
     SetLines local_ini ''Gecko_Enabled'' (bootstrap_lines global_codes [])"

subsection \<open>The merge rule in the words of the specification\<close>

text \<open>
  The specification's rule for the local entries, read off its own words: going through
  the local entries in order, an entry is included only if no already-included entry
  shares its name. \<open>seen\<close> is the set of names of the entries included so far.
\<close>

fun keep_new_names :: "string set \<Rightarrow> GeckoCode list \<Rightarrow> GeckoCode list" where
  "keep_new_names seen [] = []"
| "keep_new_names seen (e # es) =
     (if name e \<in> seen then keep_new_names seen es
      else e # keep_new_names (insert (name e) seen) es)"

subsection \<open>Vocabulary of the specification\<close>

text \<open>
  The three kinds of non-empty line that \<open>ParseCodes\<close> tells apart by the first character.
\<close>

definition is_header_line :: "string \<Rightarrow> bool" where
  "is_header_line line \<longleftrightarrow> line \<noteq> [] \<and> hd line = CHR ''$''"

definition is_note_line :: "string \<Rightarrow> bool" where
  "is_note_line line \<longleftrightarrow> line \<noteq> [] \<and> hd line = CHR ''*''"

definition is_code_line :: "string \<Rightarrow> bool" where
  "is_code_line line \<longleftrightarrow> line \<noteq> [] \<and> hd line \<noteq> CHR ''$'' \<and> hd line \<noteq> CHR ''*''"




text \<open>
  The lines that the specification's serializer writes for one local entry: the header
  with the creator in brackets when there is one, the patches' original text, the notes
  behind an asterisk.
\<close>

definition entry_lines :: "GeckoCode \<Rightarrow> string list" where
  "entry_lines e =
     (''$'' @ name e @ (if creator e \<noteq> [] then '' ['' @ creator e @ '']'' else []))
       # map original_line (codes e) @ map (\<lambda>note. ''*'' @ note) (notes' e)"

text \<open>
  The entries whose text survives writing and reading back: the name has no opening
  bracket and no white space at either end, the creator has no closing bracket, and every
  patch's original text is a line that reads back as a patch.
\<close>

definition round_trip_safe :: "GeckoCode \<Rightarrow> bool" where
  "round_trip_safe e \<longleftrightarrow>
     name e \<noteq> [] \<and> CHR ''['' \<notin> set (name e)
     \<and> \<not> is_strip_space (hd (name e)) \<and> \<not> is_strip_space (last (name e))
     \<and> CHR '']'' \<notin> set (creator e)
     \<and> list_all (\<lambda>c. is_code_line (original_line c)) (codes e)"

section \<open>Properties\<close>

lemmas parse_eval =
  ParseCodes_def GetLines_def add_last_def read_header_def GeckoCode_init_def
  StripSpaces_def not_char_def is_strip_space_def

lemmas hex_eval =
  read_code_def Code_init_def extract_hex_def scan_field_def is_cspace_def is_xdigit_def
  hex_digit_def

subsection \<open>MergeCodes\<close>

lemma push_all_append: "push_all gs ws = ws @ gs"
  by (induction gs arbitrary: ws) simp_all

lemma conflict_iff: "conflict ws lc \<longleftrightarrow> name lc \<in> name ` set ws"
  by (induction ws) auto

lemma add_local_codes_keep:
  "add_local_codes ls ws = ws @ keep_new_names (name ` set ws) ls"
  by (induction ls arbitrary: ws) (simp_all add: conflict_iff)

lemma keep_new_names_fresh: "e \<in> set (keep_new_names seen es) \<Longrightarrow> name e \<notin> seen"
  by (induction es arbitrary: seen) (auto split: if_splits)

lemma keep_new_names_disjoint: "seen \<inter> name ` set (keep_new_names seen es) = {}"
proof -
  have "y \<notin> seen" if "y \<in> name ` set (keep_new_names seen es)" for y
  proof -
    from that obtain e where "e \<in> set (keep_new_names seen es)" and "y = name e"
      by auto
    then show ?thesis
      by (simp add: keep_new_names_fresh)
  qed
  then show ?thesis by auto
qed

lemma keep_new_names_subset: "set (keep_new_names seen es) \<subseteq> set es"
  by (induction es arbitrary: seen) (auto split: if_splits)

lemma keep_new_names_distinct: "distinct (map name (keep_new_names seen es))"
  by (induction es arbitrary: seen) (auto dest: keep_new_names_fresh)

lemma MergeCodes_eq:
  "MergeCodes globalIni localIni working_set =
     working_set @ ParseCodes globalIni [] False @
       keep_new_names (name ` set (working_set @ ParseCodes globalIni [] False))
         (ParseCodes localIni [] True)"
  by (simp add: MergeCodes_def Let_def push_all_append add_local_codes_keep)

text \<open>
  C1, as stated, fails: a global source that names the same entry twice contributes both
  entries, and the merge never compares global entries with each other.
\<close>

theorem MergeCodes_names_not_distinct:
  "\<not> distinct (map name (MergeCodes [''Gecko'' \<mapsto> [''$A'', ''$A'']] [''Gecko'' \<mapsto> []] []))"
  by (simp add: MergeCodes_def parse_eval)

text \<open>
  C1 (amended): when the entries parsed from the global source have pairwise-distinct
  names, the working set that MergeCodes builds from an empty one has pairwise-distinct
  names. The global entries are its leading part, unchanged, and every entry after them
  is a local entry whose name is no global entry's name: a colliding local entry is
  discarded.
\<close>

theorem MergeCodes_distinct_names:
  assumes "distinct (map name (ParseCodes globalIni [] False))"
  shows "distinct (map name (MergeCodes globalIni localIni []))
     \<and> take (length (ParseCodes globalIni [] False)) (MergeCodes globalIni localIni [])
         = ParseCodes globalIni [] False
     \<and> (\<forall>x \<in> set (drop (length (ParseCodes globalIni [] False)) (MergeCodes globalIni localIni [])).
           x \<in> set (ParseCodes localIni [] True)
           \<and> name x \<notin> name ` set (ParseCodes globalIni [] False))"
proof -
  let ?G = "ParseCodes globalIni [] False"
  let ?K = "keep_new_names (name ` set ?G) (ParseCodes localIni [] True)"
  have m: "MergeCodes globalIni localIni [] = ?G @ ?K"
    by (simp add: MergeCodes_eq)
  have "distinct (map name ?K)"
    by (rule keep_new_names_distinct)
  moreover have "name ` set ?G \<inter> name ` set ?K = {}"
    by (rule keep_new_names_disjoint)
  ultimately have "distinct (map name (?G @ ?K))"
    using assms by simp
  moreover have "\<forall>x \<in> set ?K. x \<in> set (ParseCodes localIni [] True) \<and> name x \<notin> name ` set ?G"
    using keep_new_names_fresh keep_new_names_subset by blast
  ultimately show ?thesis
    unfolding m by simp
qed

theorem MergeCodes_distinct_names_witness:
  "distinct (map name (ParseCodes [''Gecko'' \<mapsto> [''$A'', ''$B'']] [] False))
   \<and> map name (MergeCodes [''Gecko'' \<mapsto> [''$A'', ''$B'']] [''Gecko'' \<mapsto> [''$A'', ''$C'', ''$C'']] [])
       = [''A'', ''B'', ''C'']
   \<and> distinct (map name (MergeCodes [''Gecko'' \<mapsto> [''$A'', ''$B'']] [''Gecko'' \<mapsto> [''$A'', ''$C'', ''$C'']] []))"
proof -
  have h: "distinct (map name (ParseCodes [''Gecko'' \<mapsto> [''$A'', ''$B'']] [] False))"
    by (simp add: parse_eval)
  have e: "map name (MergeCodes [''Gecko'' \<mapsto> [''$A'', ''$B'']] [''Gecko'' \<mapsto> [''$A'', ''$C'', ''$C'']] [])
       = [''A'', ''B'', ''C'']"
    by (simp add: MergeCodes_def parse_eval)
  from MergeCodes_distinct_names [OF h, of "[''Gecko'' \<mapsto> [''$A'', ''$C'', ''$C'']]"] h e
  show ?thesis by blast
qed

text \<open>
  C2: the working set merged from an empty one is every entry parsed from the global
  source, in order, followed by exactly the local entries that the specification's rule
  keeps (those whose name is the name of no entry included before them). In particular,
  global entries named A and B and local entries named A and C merge to global A,
  global B, local C.
\<close>

theorem MergeCodes_global_then_new_locals:
  "MergeCodes globalIni localIni [] =
     ParseCodes globalIni [] False @
       keep_new_names (name ` set (ParseCodes globalIni [] False)) (ParseCodes localIni [] True)
   \<and> (ParseCodes globalIni [] False = [ga, gb] \<and> name ga = ''A'' \<and> name gb = ''B''
        \<and> ParseCodes localIni [] True = [la, lc] \<and> name la = ''A'' \<and> name lc = ''C''
      \<longrightarrow> MergeCodes globalIni localIni [] = [ga, gb, lc])"
  by (simp add: MergeCodes_eq)

theorem MergeCodes_global_then_new_locals_witness:
  "MergeCodes [''Gecko'' \<mapsto> [''$A'', ''1 2'', ''$B'']] [''Gecko'' \<mapsto> [''$A'', ''3 4'', ''$C'']] [] =
     [GeckoCode_init\<lparr>name := ''A'', codes := [\<lparr>address = 1, data = 2, original_line = ''1 2''\<rparr>]\<rparr>,
      GeckoCode_init\<lparr>name := ''B''\<rparr>,
      GeckoCode_init\<lparr>name := ''C'', user_defined := True\<rparr>]"
proof -
  let ?g = "[''Gecko'' \<mapsto> [''$A'', ''1 2'', ''$B'']]"
  let ?l = "[''Gecko'' \<mapsto> [''$A'', ''3 4'', ''$C'']]"
  let ?ga = "GeckoCode_init\<lparr>name := ''A'', codes := [\<lparr>address = 1, data = 2, original_line = ''1 2''\<rparr>]\<rparr>"
  let ?gb = "GeckoCode_init\<lparr>name := ''B''\<rparr>"
  let ?la = "GeckoCode_init\<lparr>name := ''A'', user_defined := True, codes := [\<lparr>address = 3, data = 4, original_line = ''3 4''\<rparr>]\<rparr>"
  let ?lc = "GeckoCode_init\<lparr>name := ''C'', user_defined := True\<rparr>"
  have g: "ParseCodes ?g [] False = [?ga, ?gb]"
    by (simp add: parse_eval hex_eval)
  have l: "ParseCodes ?l [] True = [?la, ?lc]"
    by (simp add: parse_eval hex_eval)
  have n: "name ?ga = ''A''" "name ?gb = ''B''" "name ?la = ''A''" "name ?lc = ''C''"
    by (simp_all add: GeckoCode_init_def)
  from MergeCodes_global_then_new_locals [of ?g ?l ?ga ?gb ?la ?lc] g l n
  show ?thesis by blast
qed

text \<open>
  C10: MergeCodes appends to the working set it is given. The result is the initial
  entries, then all entries parsed from the global source, then the local entries whose
  name is not yet present; a local entry that shares its name with an initial entry is
  not added.
\<close>

theorem MergeCodes_appends_to_working_set:
  "MergeCodes globalIni localIni working_set =
     working_set @ ParseCodes globalIni [] False @
       keep_new_names (name ` set (working_set @ ParseCodes globalIni [] False))
         (ParseCodes localIni [] True)
   \<and> (\<forall>x \<in> set (ParseCodes localIni [] True).
        name x \<in> name ` set working_set \<longrightarrow>
        x \<notin> set (drop (length working_set + length (ParseCodes globalIni [] False))
                    (MergeCodes globalIni localIni working_set)))"
proof -
  have "\<forall>x \<in> set (ParseCodes localIni [] True). name x \<in> name ` set working_set \<longrightarrow>
      x \<notin> set (keep_new_names (name ` set (working_set @ ParseCodes globalIni [] False))
         (ParseCodes localIni [] True))"
    using keep_new_names_fresh by fastforce
  then show ?thesis
    by (simp add: MergeCodes_eq)
qed

theorem MergeCodes_appends_to_working_set_witness:
  "map name (MergeCodes [''Gecko'' \<mapsto> [''$A'']] [''Gecko'' \<mapsto> [''$P'', ''$C'', ''$A'']]
      [GeckoCode_init\<lparr>name := ''P''\<rparr>]) = [''P'', ''A'', ''C'']"
proof -
  let ?g = "[''Gecko'' \<mapsto> [''$A'']]"
  let ?l = "[''Gecko'' \<mapsto> [''$P'', ''$C'', ''$A'']]"
  let ?ws = "[GeckoCode_init\<lparr>name := ''P''\<rparr>]"
  have g: "ParseCodes ?g [] False = [GeckoCode_init\<lparr>name := ''A''\<rparr>]"
    by (simp add: parse_eval)
  have l: "ParseCodes ?l [] True = [GeckoCode_init\<lparr>name := ''P'', user_defined := True\<rparr>,
      GeckoCode_init\<lparr>name := ''C'', user_defined := True\<rparr>, GeckoCode_init\<lparr>name := ''A'', user_defined := True\<rparr>]"
    by (simp add: parse_eval)
  from MergeCodes_appends_to_working_set [of ?g ?l ?ws]
  have "MergeCodes ?g ?l ?ws = ?ws @ ParseCodes ?g [] False @
       keep_new_names (name ` set (?ws @ ParseCodes ?g [] False)) (ParseCodes ?l [] True)"
    by blast
  then show ?thesis
    unfolding g l by (simp add: GeckoCode_init_def)
qed

subsection \<open>MarkEnabledCodes and MarkBootstrapCodes\<close>

lemma mark_enabled_name_map:
  "mark_enabled_name nm gcodes =
     map (\<lambda>e. if name e = nm then e\<lparr>enabled := True\<rparr> else e) gcodes"
  by (induction gcodes) simp_all

lemma mark_bootstrap_name_map:
  "mark_bootstrap_name nm gcodes =
     map (\<lambda>e. if name e = nm then e\<lparr>bootstrap_enabled := True\<rparr> else e) gcodes"
  by (induction gcodes) simp_all

lemma MarkEnabledCodes_loop_map:
  "MarkEnabledCodes_loop lines gcodes =
     map (\<lambda>e. if CHR ''$'' # name e \<in> set lines then e\<lparr>enabled := True\<rparr> else e) gcodes"
proof (induction lines arbitrary: gcodes)
  case Nil
  then show ?case by simp
next
  case (Cons line lines)
  show ?case
  proof (cases "length line = 0 \<or> hd line \<noteq> CHR ''$''")
    case True
    then have "\<And>e :: GeckoCode. CHR ''$'' # name e \<noteq> line"
      by auto
    with True Cons show ?thesis
      by simp
  next
    case False
    then obtain nm where line: "line = CHR ''$'' # nm"
      by (cases line) auto
    show ?thesis
      by (simp add: line Cons mark_enabled_name_map comp_def cong: map_cong)
  qed
qed

lemma MarkBootstrapCodes_loop_map:
  "MarkBootstrapCodes_loop lines gcodes =
     map (\<lambda>e. if CHR ''$'' # name e \<in> set lines then e\<lparr>bootstrap_enabled := True\<rparr> else e) gcodes"
proof (induction lines arbitrary: gcodes)
  case Nil
  then show ?case by simp
next
  case (Cons line lines)
  show ?case
  proof (cases "length line = 0 \<or> hd line \<noteq> CHR ''$''")
    case True
    then have "\<And>e :: GeckoCode. CHR ''$'' # name e \<noteq> line"
      by auto
    with True Cons show ?thesis
      by simp
  next
    case False
    then obtain nm where line: "line = CHR ''$'' # nm"
      by (cases line) auto
    show ?thesis
      by (simp add: line Cons mark_bootstrap_name_map comp_def cong: map_cong)
  qed
qed

text \<open>
  C4, as stated, fails: the resolver only ever sets a flag. An entry that is enabled before
  the call stays enabled although no marker line names it, so the flag afterwards depends
  on its value before the call.
\<close>

theorem MarkEnabledCodes_keeps_set_flag:
  "map enabled (MarkEnabledCodes [''Gecko_Enabled'' \<mapsto> []]
      [GeckoCode_init\<lparr>name := ''X'', enabled := True\<rparr>, GeckoCode_init\<lparr>name := ''X''\<rparr>])
    = [True, False]"
  by (simp add: MarkEnabledCodes_def GetLines_def GeckoCode_init_def)

text \<open>
  C4 (amended): after MarkEnabledCodes (respectively MarkBootstrapCodes) the enabled
  (respectively bootstrap_enabled) flag of each entry is its value before the call or-ed
  with whether the entry's name is the remainder of some marker line beginning with a
  dollar sign. For entries whose flag was false before the call, the flag afterwards is
  exactly whether the name appears.
\<close>

theorem Mark_flags_accumulate:
  "map enabled (MarkEnabledCodes ini gcodes) =
     map (\<lambda>e. enabled e \<or> CHR ''$'' # name e \<in> set (GetLines ini ''Gecko_Enabled'')) gcodes
   \<and> map bootstrap_enabled (MarkBootstrapCodes ini gcodes) =
     map (\<lambda>e. bootstrap_enabled e \<or> CHR ''$'' # name e \<in> set (GetLines ini ''Gecko_Enabled'')) gcodes
   \<and> ((\<forall>e \<in> set gcodes. \<not> enabled e) \<longrightarrow>
        map enabled (MarkEnabledCodes ini gcodes) =
          map (\<lambda>e. CHR ''$'' # name e \<in> set (GetLines ini ''Gecko_Enabled'')) gcodes)
   \<and> ((\<forall>e \<in> set gcodes. \<not> bootstrap_enabled e) \<longrightarrow>
        map bootstrap_enabled (MarkBootstrapCodes ini gcodes) =
          map (\<lambda>e. CHR ''$'' # name e \<in> set (GetLines ini ''Gecko_Enabled'')) gcodes)"
  by (simp add: MarkEnabledCodes_def MarkBootstrapCodes_def MarkEnabledCodes_loop_map
      MarkBootstrapCodes_loop_map)

theorem Mark_flags_accumulate_witness:
  "map enabled (MarkEnabledCodes [''Gecko_Enabled'' \<mapsto> [''$X'', ''Y'', []]]
      [GeckoCode_init\<lparr>name := ''X''\<rparr>, GeckoCode_init\<lparr>name := ''Y''\<rparr>]) = [True, False]
   \<and> map bootstrap_enabled (MarkBootstrapCodes [''Gecko_Enabled'' \<mapsto> [''$X'', ''Y'', []]]
      [GeckoCode_init\<lparr>name := ''X''\<rparr>, GeckoCode_init\<lparr>name := ''Y''\<rparr>]) = [True, False]"
proof -
  let ?ini = "[''Gecko_Enabled'' \<mapsto> [''$X'', ''Y'', []]]"
  let ?gs = "[GeckoCode_init\<lparr>name := ''X''\<rparr>, GeckoCode_init\<lparr>name := ''Y''\<rparr>]"
  have h: "\<forall>e \<in> set ?gs. \<not> enabled e" "\<forall>e \<in> set ?gs. \<not> bootstrap_enabled e"
    by (simp_all add: GeckoCode_init_def)
  from Mark_flags_accumulate [of ?ini ?gs] h
  have "map enabled (MarkEnabledCodes ?ini ?gs) =
          map (\<lambda>e. CHR ''$'' # name e \<in> set (GetLines ?ini ''Gecko_Enabled'')) ?gs"
    and "map bootstrap_enabled (MarkBootstrapCodes ?ini ?gs) =
          map (\<lambda>e. CHR ''$'' # name e \<in> set (GetLines ?ini ''Gecko_Enabled'')) ?gs"
    by blast+
  then show ?thesis
    by (simp add: GetLines_def GeckoCode_init_def)
qed

text \<open>
  C5: MarkEnabledCodes sets enabled on exactly the entries whose name equals, character
  for character, the remainder of some marker line beginning with a dollar sign, and
  leaves every other entry as it was; all entries that share a matching name are marked.
  Marker lines that are empty or do not begin with a dollar sign have no effect. For fresh
  entries named X and Y and the marker section with the one line $X, X is enabled
  afterwards and Y is not.
\<close>

theorem MarkEnabledCodes_exact_matches:
  "MarkEnabledCodes localIni gcodes =
     map (\<lambda>e. if CHR ''$'' # name e \<in> set (GetLines localIni ''Gecko_Enabled'')
               then e\<lparr>enabled := True\<rparr> else e) gcodes
   \<and> MarkEnabledCodes (localIni(''Gecko_Enabled'' \<mapsto> filter (\<lambda>l. l \<noteq> [] \<and> hd l = CHR ''$'') lines)) gcodes
       = MarkEnabledCodes (localIni(''Gecko_Enabled'' \<mapsto> lines)) gcodes
   \<and> (name x = ''X'' \<and> name y = ''Y'' \<and> \<not> enabled x \<and> \<not> enabled y \<longrightarrow>
        map enabled (MarkEnabledCodes (localIni(''Gecko_Enabled'' \<mapsto> [''$X''])) [x, y]) = [True, False])"
  by (simp add: MarkEnabledCodes_def MarkEnabledCodes_loop_map GetLines_def)

theorem MarkEnabledCodes_exact_matches_witness:
  "map enabled (MarkEnabledCodes [''Gecko_Enabled'' \<mapsto> [''$X'']]
      [GeckoCode_init\<lparr>name := ''X''\<rparr>, GeckoCode_init\<lparr>name := ''Y''\<rparr>]) = [True, False]
   \<and> map enabled (MarkEnabledCodes [''Gecko_Enabled'' \<mapsto> [''X'', [], ''$Xa'', ''$x'', '' $X'', ''$X '']]
      [GeckoCode_init\<lparr>name := ''X''\<rparr>, GeckoCode_init\<lparr>name := ''Xa''\<rparr>, GeckoCode_init\<lparr>name := ''Xa''\<rparr>])
      = [False, True, True]"
proof -
  let ?x = "GeckoCode_init\<lparr>name := ''X''\<rparr>"
  let ?y = "GeckoCode_init\<lparr>name := ''Y''\<rparr>"
  have h: "name ?x = ''X'' \<and> name ?y = ''Y'' \<and> \<not> enabled ?x \<and> \<not> enabled ?y"
    by (simp add: GeckoCode_init_def)
  from MarkEnabledCodes_exact_matches [of Map.empty "[]" "[]" ?x ?y] h
  have a: "map enabled (MarkEnabledCodes [''Gecko_Enabled'' \<mapsto> [''$X'']] [?x, ?y]) = [True, False]"
    by blast
  have b: "map enabled (MarkEnabledCodes [''Gecko_Enabled'' \<mapsto> [''X'', [], ''$Xa'', ''$x'', '' $X'', ''$X '']]
      [GeckoCode_init\<lparr>name := ''X''\<rparr>, GeckoCode_init\<lparr>name := ''Xa''\<rparr>, GeckoCode_init\<lparr>name := ''Xa''\<rparr>])
      = [False, True, True]"
    by (simp add: MarkEnabledCodes_def GetLines_def GeckoCode_init_def)
  from a b show ?thesis by simp
qed

subsection \<open>FillIni and BootstrapLocalConfig\<close>

lemma push_code_lines_eq: "push_code_lines cs lines = lines @ map original_line cs"
  by (induction cs arbitrary: lines) simp_all

lemma push_note_lines_eq: "push_note_lines ns lines = lines @ map (\<lambda>note. ''*'' @ note) ns"
  by (induction ns arbitrary: lines) simp_all

lemma FillLines_eq:
  "FillLines (lines, enabledLines) gcode =
     (lines @ (if user_defined gcode then entry_lines gcode else []),
      enabledLines @ (if enabled gcode then [''$'' @ name gcode] else []))"
  by (simp add: FillLines_def Let_def entry_lines_def push_code_lines_eq push_note_lines_eq)

lemma FillIni_loop_eq:
  "FillIni_loop gcodes (lines, enabledLines) =
     (lines @ concat (map entry_lines (filter user_defined gcodes)),
      enabledLines @ map (\<lambda>e. ''$'' @ name e) (filter enabled gcodes))"
  by (induction gcodes arbitrary: lines enabledLines) (simp_all add: FillLines_eq)

lemma FillIni_eq:
  "FillIni inifile gcodes =
     inifile(''Gecko'' \<mapsto> concat (map entry_lines (filter user_defined gcodes)),
             ''Gecko_Enabled'' \<mapsto> map (\<lambda>e. ''$'' @ name e) (filter enabled gcodes))"
  by (simp add: FillIni_def FillIni_loop_eq SetLines_def)

text \<open>
  C6: FillIni writes, as the activation markers, a dollar sign and the name for every
  enabled entry, whether user-defined or not, and writes entry lines only for the
  user-defined entries. A sequence without user-defined entries gives an empty entries
  section, while its enabled entries still appear among the activation markers.
\<close>

theorem FillIni_sections:
  "GetLines (FillIni inifile gcodes) ''Gecko_Enabled'' =
     map (\<lambda>e. ''$'' @ name e) (filter enabled gcodes)
   \<and> GetLines (FillIni inifile gcodes) ''Gecko'' =
     concat (map entry_lines (filter user_defined gcodes))
   \<and> ((\<forall>e \<in> set gcodes. \<not> user_defined e) \<longrightarrow>
        GetLines (FillIni inifile gcodes) ''Gecko'' = [])"
  by (simp add: FillIni_eq GetLines_def)

theorem FillIni_sections_witness:
  "GetLines (FillIni Map.empty [GeckoCode_init\<lparr>name := ''A'', enabled := True\<rparr>,
      GeckoCode_init\<lparr>name := ''B''\<rparr>, GeckoCode_init\<lparr>name := ''C'', enabled := True\<rparr>]) ''Gecko'' = []
   \<and> GetLines (FillIni Map.empty [GeckoCode_init\<lparr>name := ''A'', enabled := True\<rparr>,
      GeckoCode_init\<lparr>name := ''B''\<rparr>, GeckoCode_init\<lparr>name := ''C'', enabled := True\<rparr>]) ''Gecko_Enabled''
      = [''$A'', ''$C'']"
proof -
  let ?gs = "[GeckoCode_init\<lparr>name := ''A'', enabled := True\<rparr>,
      GeckoCode_init\<lparr>name := ''B''\<rparr>, GeckoCode_init\<lparr>name := ''C'', enabled := True\<rparr>]"
  have h: "\<forall>e \<in> set ?gs. \<not> user_defined e"
    by (simp add: GeckoCode_init_def)
  from FillIni_sections [of Map.empty ?gs] h
  have "GetLines (FillIni Map.empty ?gs) ''Gecko'' = []"
    and "GetLines (FillIni Map.empty ?gs) ''Gecko_Enabled'' = map (\<lambda>e. ''$'' @ name e) (filter enabled ?gs)"
    by blast+
  then show ?thesis
    by (simp add: GeckoCode_init_def)
qed

lemma bootstrap_lines_eq:
  "bootstrap_lines global_codes enabledLines =
     enabledLines @ map (\<lambda>e. ''$'' @ name e) (filter bootstrap_enabled global_codes)"
  by (induction global_codes arbitrary: enabledLines) simp_all

text \<open>
  C8: BootstrapLocalConfig sets the local activation-marker section to exactly the lines
  made of a dollar sign and the name of each entry with bootstrap_enabled, in entry order,
  and changes no other section. For entries X with the flag and Y without it the section
  is the one line $X.
\<close>

theorem BootstrapLocalConfig_markers:
  "GetLines (BootstrapLocalConfig local_ini global_codes) ''Gecko_Enabled'' =
     map (\<lambda>e. ''$'' @ name e) (filter bootstrap_enabled global_codes)
   \<and> (\<forall>s. s \<noteq> ''Gecko_Enabled'' \<longrightarrow> BootstrapLocalConfig local_ini global_codes s = local_ini s)
   \<and> (name x = ''X'' \<and> name y = ''Y'' \<and> bootstrap_enabled x \<and> \<not> bootstrap_enabled y \<longrightarrow>
        GetLines (BootstrapLocalConfig local_ini [x, y]) ''Gecko_Enabled'' = [''$X''])"
  by (simp add: BootstrapLocalConfig_def bootstrap_lines_eq SetLines_def GetLines_def)

theorem BootstrapLocalConfig_markers_witness:
  "GetLines (BootstrapLocalConfig [''Gecko'' \<mapsto> [''$L'']]
      [GeckoCode_init\<lparr>name := ''X'', bootstrap_enabled := True\<rparr>, GeckoCode_init\<lparr>name := ''Y''\<rparr>])
      ''Gecko_Enabled'' = [''$X'']
   \<and> GetLines (BootstrapLocalConfig [''Gecko'' \<mapsto> [''$L'']]
      [GeckoCode_init\<lparr>name := ''X'', bootstrap_enabled := True\<rparr>, GeckoCode_init\<lparr>name := ''Y''\<rparr>])
      ''Gecko'' = [''$L'']"
proof -
  let ?ini = "[''Gecko'' \<mapsto> [''$L'']]"
  let ?x = "GeckoCode_init\<lparr>name := ''X'', bootstrap_enabled := True\<rparr>"
  let ?y = "GeckoCode_init\<lparr>name := ''Y''\<rparr>"
  have h: "name ?x = ''X'' \<and> name ?y = ''Y'' \<and> bootstrap_enabled ?x \<and> \<not> bootstrap_enabled ?y"
    by (simp add: GeckoCode_init_def)
  have s: "''Gecko'' \<noteq> ''Gecko_Enabled''"
    by simp
  note t = BootstrapLocalConfig_markers [of ?ini "[?x, ?y]" ?x ?y]
  have "GetLines (BootstrapLocalConfig ?ini [?x, ?y]) ''Gecko_Enabled'' = [''$X'']"
    using t [THEN conjunct2, THEN conjunct2] h by (rule mp)
  moreover have "BootstrapLocalConfig ?ini [?x, ?y] ''Gecko'' = ?ini ''Gecko''"
    using t [THEN conjunct2, THEN conjunct1, THEN spec, of "''Gecko''"] s by (rule mp)
  ultimately show ?thesis
    by (simp add: GetLines_def)
qed

subsection \<open>ParseCodes\<close>

lemma ParseCodes_loop_append:
  "ParseCodes_loop b (xs @ ys) st = ParseCodes_loop b ys (ParseCodes_loop b xs st)"
  by (induction xs arbitrary: st) simp_all

lemma add_last_eq: "add_last (gcodes, gcode) = gcodes @ (if name gcode \<noteq> [] then [gcode] else [])"
  by (simp add: add_last_def)

lemma ParseCodes_line_header:
  "is_header_line line \<Longrightarrow>
     ParseCodes_line b line (gcodes, gcode) = (add_last (gcodes, gcode), read_header b line)"
  by (cases line) (simp_all add: is_header_line_def add_last_def)

lemma ParseCodes_line_code:
  "is_code_line line \<Longrightarrow>
     ParseCodes_line b line (gcodes, gcode) =
       (gcodes, gcode\<lparr>codes := codes gcode @ [read_code line]\<rparr>)"
  by (cases line) (simp_all add: is_code_line_def)

lemma ParseCodes_line_note:
  "is_note_line line \<Longrightarrow>
     ParseCodes_line b line (gcodes, gcode) =
       (gcodes, gcode\<lparr>notes' := notes' gcode @ [tl line]\<rparr>)"
  by (cases line) (simp_all add: is_note_line_def)

lemma line_kinds:
  "line = [] \<or> is_header_line line \<or> is_note_line line \<or> is_code_line line"
  by (auto simp: is_header_line_def is_note_line_def is_code_line_def)

lemma ParseCodes_loop_body:
  "list_all (\<lambda>l. \<not> is_header_line l) body \<Longrightarrow>
     ParseCodes_loop b body (gcodes, gcode) =
       (gcodes, gcode\<lparr>codes := codes gcode @ map read_code (filter is_code_line body),
                       notes' := notes' gcode @ map tl (filter is_note_line body)\<rparr>)"
proof (induction body arbitrary: gcode)
  case Nil
  then show ?case by simp
next
  case (Cons line body)
  then have nh: "\<not> is_header_line line" and rest: "list_all (\<lambda>l. \<not> is_header_line l) body"
    by simp_all
  from line_kinds [of line] nh
  consider "line = []" | "is_note_line line" | "is_code_line line"
    by blast
  then show ?case
  proof cases
    case 1
    then show ?thesis
      using Cons.IH [OF rest] by (simp add: is_code_line_def is_note_line_def)
  next
    case 2
    then have "\<not> is_code_line line"
      by (simp add: is_code_line_def is_note_line_def)
    with 2 show ?thesis
      using Cons.IH [OF rest] by (simp add: ParseCodes_line_note)
  next
    case 3
    then have "\<not> is_note_line line"
      by (simp add: is_code_line_def is_note_line_def)
    with 3 show ?thesis
      using Cons.IH [OF rest] by (simp add: ParseCodes_line_code)
  qed
qed

lemma read_header_fields:
  "codes (read_header b line) = []" "notes' (read_header b line) = []"
  "user_defined (read_header b line) = b" "enabled (read_header b line) = False"
  "bootstrap_enabled (read_header b line) = False"
  by (simp_all add: read_header_def GeckoCode_init_def Let_def)

lemma ParseCodes_Gecko:
  "ParseCodes (ini(''Gecko'' \<mapsto> lines)) gcodes b =
     add_last (ParseCodes_loop b lines (gcodes, GeckoCode_init))"
  by (simp add: ParseCodes_def GetLines_def)

lemma ParseCodes_header_body:
  assumes h: "is_header_line h" and body: "list_all (\<lambda>l. \<not> is_header_line l) body"
  shows "ParseCodes (ini(''Gecko'' \<mapsto> pre @ h # body)) gcodes b =
     ParseCodes (ini(''Gecko'' \<mapsto> pre)) gcodes b @
       (if name (read_header b h) \<noteq> []
        then [(read_header b h)\<lparr>codes := map read_code (filter is_code_line body),
                                notes' := map tl (filter is_note_line body)\<rparr>]
        else [])"
proof -
  obtain out cur where st: "ParseCodes_loop b pre (gcodes, GeckoCode_init) = (out, cur)"
    by (cases "ParseCodes_loop b pre (gcodes, GeckoCode_init)")
  show ?thesis
    by (simp add: ParseCodes_Gecko ParseCodes_loop_append st ParseCodes_line_header [OF h]
        ParseCodes_loop_body [OF body] add_last_eq read_header_fields)
qed

lemma ParseCodes_loop_names:
  "list_all (\<lambda>e. name e \<noteq> []) gcodes \<Longrightarrow>
     list_all (\<lambda>e. name e \<noteq> []) (fst (ParseCodes_loop b lines (gcodes, gcode)))"
proof (induction lines arbitrary: gcodes gcode)
  case Nil
  then show ?case by simp
next
  case (Cons line lines)
  obtain out cur where st: "ParseCodes_line b line (gcodes, gcode) = (out, cur)"
    by (cases "ParseCodes_line b line (gcodes, gcode)")
  have "list_all (\<lambda>e. name e \<noteq> []) out"
    using st Cons.prems by (cases line) (auto split: if_splits)
  then show ?case
    using Cons.IH [of out cur] by (simp add: st)
qed

lemma ParseCodes_names:
  assumes "list_all (\<lambda>e. name e \<noteq> []) gcodes"
  shows "list_all (\<lambda>e. name e \<noteq> []) (ParseCodes ini gcodes b)"
proof -
  obtain out cur where st:
    "ParseCodes_loop b (GetLines ini ''Gecko'') (gcodes, GeckoCode_init) = (out, cur)"
    by (cases "ParseCodes_loop b (GetLines ini ''Gecko'') (gcodes, GeckoCode_init)")
  have "list_all (\<lambda>e. name e \<noteq> []) out"
    using ParseCodes_loop_names [OF assms, of b "GetLines ini ''Gecko''" GeckoCode_init]
    by (simp add: st)
  then show ?thesis
    by (simp add: ParseCodes_def st add_last_eq)
qed

text \<open>
  C9: when the lines are exhausted, the entry in progress is emitted exactly when its name
  is not empty. A header line whose name is not empty, followed to the end of the input by
  lines that are not headers (none, or patch, note and empty lines in any order), yields
  as the last entry of the result the entry of that header with the patches and notes of
  those lines: no trailing blank or header line is needed. A header whose name is empty
  yields nothing, the patch and note lines that precede every header yield nothing, and no
  entry of a result has an empty name.
\<close>

theorem ParseCodes_last_entry:
  "(is_header_line h \<and> list_all (\<lambda>l. \<not> is_header_line l) body \<and> name (read_header b h) \<noteq> []
      \<longrightarrow> ParseCodes (ini(''Gecko'' \<mapsto> pre @ h # body)) gcodes b =
            ParseCodes (ini(''Gecko'' \<mapsto> pre)) gcodes b @
              [(read_header b h)\<lparr>codes := map read_code (filter is_code_line body),
                                  notes' := map tl (filter is_note_line body)\<rparr>])
   \<and> (is_header_line h \<and> list_all (\<lambda>l. \<not> is_header_line l) body \<and> name (read_header b h) = []
      \<longrightarrow> ParseCodes (ini(''Gecko'' \<mapsto> pre @ h # body)) gcodes b =
            ParseCodes (ini(''Gecko'' \<mapsto> pre)) gcodes b)
   \<and> (list_all (\<lambda>l. \<not> is_header_line l) body
      \<longrightarrow> ParseCodes (ini(''Gecko'' \<mapsto> body)) gcodes b = gcodes)
   \<and> list_all (\<lambda>e. name e \<noteq> []) (ParseCodes ini [] b)"
proof -
  have "ParseCodes (ini(''Gecko'' \<mapsto> body)) gcodes b = gcodes"
    if "list_all (\<lambda>l. \<not> is_header_line l) body"
    by (simp add: ParseCodes_Gecko ParseCodes_loop_body [OF that] add_last_eq GeckoCode_init_def)
  moreover have "list_all (\<lambda>e. name e \<noteq> []) (ParseCodes ini [] b)"
    by (rule ParseCodes_names) simp
  ultimately show ?thesis
    by (simp add: ParseCodes_header_body)
qed

theorem ParseCodes_last_entry_witness:
  "ParseCodes [''Gecko'' \<mapsto> [''$A'', ''1 2'', ''$B [me]'', ''3 4'', ''*n'']] [] True =
     [GeckoCode_init\<lparr>user_defined := True, name := ''A'',
        codes := [\<lparr>address = 1, data = 2, original_line = ''1 2''\<rparr>]\<rparr>,
      GeckoCode_init\<lparr>user_defined := True, name := ''B'', creator := ''me'',
        codes := [\<lparr>address = 3, data = 4, original_line = ''3 4''\<rparr>], notes' := [''n'']\<rparr>]
   \<and> ParseCodes [''Gecko'' \<mapsto> [''$A'', ''1 2'', ''$ [me]'', ''3 4'', ''*n'']] [] True =
     [GeckoCode_init\<lparr>user_defined := True, name := ''A'',
        codes := [\<lparr>address = 1, data = 2, original_line = ''1 2''\<rparr>]\<rparr>]
   \<and> ParseCodes [''Gecko'' \<mapsto> [''3 4'', ''*n'']] [] True = []"
proof -
  let ?pre = "[''$A'', ''1 2'']"
  let ?body = "[''3 4'', ''*n'']"
  let ?A = "GeckoCode_init\<lparr>user_defined := True, name := ''A'',
        codes := [\<lparr>address = 1, data = 2, original_line = ''1 2''\<rparr>]\<rparr>"
  have pre: "ParseCodes [''Gecko'' \<mapsto> ?pre] [] True = [?A]"
    by (simp add: parse_eval hex_eval)
  have b: "list_all (\<lambda>l. \<not> is_header_line l) ?body"
    by (simp add: is_header_line_def)
  have h1: "is_header_line ''$B [me]'' \<and> list_all (\<lambda>l. \<not> is_header_line l) ?body
      \<and> name (read_header True ''$B [me]'') \<noteq> []"
    by (simp add: is_header_line_def parse_eval)
  have h2: "is_header_line ''$ [me]'' \<and> list_all (\<lambda>l. \<not> is_header_line l) ?body
      \<and> name (read_header True ''$ [me]'') = []"
    by (simp add: is_header_line_def parse_eval)
  note t1 = ParseCodes_last_entry [of "''$B [me]''" ?body True Map.empty ?pre "[]"]
  note t2 = ParseCodes_last_entry [of "''$ [me]''" ?body True Map.empty ?pre "[]"]
  have "ParseCodes [''Gecko'' \<mapsto> ?pre @ ''$B [me]'' # ?body] [] True =
      ParseCodes [''Gecko'' \<mapsto> ?pre] [] True @
        [(read_header True ''$B [me]'')\<lparr>codes := map read_code (filter is_code_line ?body),
           notes' := map tl (filter is_note_line ?body)\<rparr>]"
    using t1 [THEN conjunct1] h1 by (rule mp)
  then have 1: "ParseCodes [''Gecko'' \<mapsto> ?pre @ ''$B [me]'' # ?body] [] True =
      [?A, GeckoCode_init\<lparr>user_defined := True, name := ''B'', creator := ''me'',
        codes := [\<lparr>address = 3, data = 4, original_line = ''3 4''\<rparr>], notes' := [''n'']\<rparr>]"
    unfolding pre
    by (simp add: is_code_line_def is_note_line_def read_header_def GeckoCode_init_def
        StripSpaces_def not_char_def is_strip_space_def hex_eval)
  have "ParseCodes [''Gecko'' \<mapsto> ?pre @ ''$ [me]'' # ?body] [] True =
      ParseCodes [''Gecko'' \<mapsto> ?pre] [] True"
    using t2 [THEN conjunct2, THEN conjunct1] h2 by (rule mp)
  then have 2: "ParseCodes [''Gecko'' \<mapsto> ?pre @ ''$ [me]'' # ?body] [] True = [?A]"
    unfolding pre .
  have 3: "ParseCodes [''Gecko'' \<mapsto> ?body] [] True = []"
    using t1 [THEN conjunct2, THEN conjunct2, THEN conjunct1] b by (rule mp)
  from 1 2 3 show ?thesis
    by simp
qed

subsection \<open>Patch lines that do not decode\<close>

lemma read_code_original_line: "original_line (read_code line) = line"
  by (simp add: read_code_def Code_init_def Let_def split: prod.splits)












subsection \<open>Writing an entry and reading it back\<close>

lemma StripSpaces_trailing_blank:
  assumes "n \<noteq> []" and "\<not> is_strip_space (hd n)" and "\<not> is_strip_space (last n)"
  shows "StripSpaces (n @ '' '') = n"
proof -
  have front: "dropWhile is_strip_space (n @ '' '') = n @ '' ''"
    using assms(1,2) by (cases n) simp_all
  have "rev n \<noteq> []" and "\<not> is_strip_space (hd (rev n))"
    using assms(1,3) by (simp_all add: hd_rev)
  then have "dropWhile is_strip_space (rev n) = rev n"
    by (cases "rev n") simp_all
  then have "dropWhile is_strip_space (rev (n @ '' '')) = rev n"
    by (simp add: is_strip_space_def)
  then show ?thesis
    by (simp add: StripSpaces_def front)
qed

lemma StripSpaces_unchanged:
  assumes "n \<noteq> []" and "\<not> is_strip_space (hd n)" and "\<not> is_strip_space (last n)"
  shows "StripSpaces n = n"
proof -
  have front: "dropWhile is_strip_space n = n"
    using assms(1,2) by (cases n) simp_all
  have "rev n \<noteq> []" and "\<not> is_strip_space (hd (rev n))"
    using assms(1,3) by (simp_all add: hd_rev)
  then have "dropWhile is_strip_space (rev n) = rev n"
    by (cases "rev n") simp_all
  then show ?thesis
    by (simp add: StripSpaces_def front)
qed

lemma takeWhile_not_char: "d \<notin> set xs \<Longrightarrow> takeWhile (not_char d) (xs @ d # ys) = xs"
  by (induction xs) (auto simp: not_char_def)

lemma dropWhile_not_char: "d \<notin> set xs \<Longrightarrow> dropWhile (not_char d) (xs @ d # ys) = d # ys"
  by (induction xs) (auto simp: not_char_def)

lemma takeWhile_not_char_all: "d \<notin> set xs \<Longrightarrow> takeWhile (not_char d) xs = xs"
  by (induction xs) (auto simp: not_char_def)

lemma dropWhile_not_char_all: "d \<notin> set xs \<Longrightarrow> dropWhile (not_char d) xs = []"
  by (induction xs) (auto simp: not_char_def)

lemma read_header_with_creator:
  assumes "round_trip_safe e"
  shows "read_header b (''$'' @ name e @ '' ['' @ creator e @ '']'') =
     GeckoCode_init\<lparr>user_defined := b, name := name e, creator := creator e\<rparr>"
proof -
  from assms have n: "CHR ''['' \<notin> set (name e @ '' '')" and c: "CHR '']'' \<notin> set (creator e)"
    and s: "StripSpaces (name e @ '' '') = name e"
    by (simp_all add: round_trip_safe_def StripSpaces_trailing_blank)
  have t: "takeWhile (not_char (CHR ''['')) ((name e @ '' '') @ CHR ''['' # creator e @ '']'') = name e @ '' ''"
    using n by (rule takeWhile_not_char)
  have d: "dropWhile (not_char (CHR ''['')) ((name e @ '' '') @ CHR ''['' # creator e @ '']'')
      = CHR ''['' # creator e @ '']''"
    using n by (rule dropWhile_not_char)
  have k: "takeWhile (not_char (CHR '']'')) (creator e @ CHR '']'' # []) = creator e"
    using c by (rule takeWhile_not_char)
  from t d k s show ?thesis
    by (simp add: read_header_def Let_def)
qed

lemma read_header_without_creator:
  assumes "round_trip_safe e"
  shows "read_header b (''$'' @ name e) =
     GeckoCode_init\<lparr>user_defined := b, name := name e, creator := []\<rparr>"
proof -
  from assms have n: "CHR ''['' \<notin> set (name e)" and s: "StripSpaces (name e) = name e"
    by (simp_all add: round_trip_safe_def StripSpaces_unchanged)
  from n s show ?thesis
    by (simp add: read_header_def Let_def takeWhile_not_char_all dropWhile_not_char_all)
qed

lemma read_header_entry_lines:
  assumes "round_trip_safe e"
  shows "read_header b (''$'' @ name e @ (if creator e \<noteq> [] then '' ['' @ creator e @ '']'' else [])) =
     GeckoCode_init\<lparr>user_defined := b, name := name e, creator := creator e\<rparr>"
  using read_header_with_creator [OF assms] read_header_without_creator [OF assms]
  by simp

lemma filter_code_lines_body:
  assumes "list_all (\<lambda>c. is_code_line (original_line c)) cs"
  shows "filter is_code_line (map original_line cs @ map ((#) CHR ''*'') ns)
           = map original_line cs"
    and "filter is_note_line (map original_line cs @ map ((#) CHR ''*'') ns)
           = map ((#) CHR ''*'') ns"
    and "list_all (\<lambda>l. \<not> is_header_line l) (map original_line cs @ map ((#) CHR ''*'') ns)"
  using assms
  by (induction cs)
    (auto simp: is_code_line_def is_note_line_def is_header_line_def list_all_iff filter_empty_conv
      filter_id_conv)

lemma ParseCodes_same_lines:
  "GetLines ini ''Gecko'' = lines \<Longrightarrow>
     ParseCodes ini gcodes b = ParseCodes (Map.empty(''Gecko'' \<mapsto> lines)) gcodes b"
  by (simp add: ParseCodes_def GetLines_def)

lemma ParseCodes_entry_lines:
  assumes "round_trip_safe e"
  shows "ParseCodes (Map.empty(''Gecko'' \<mapsto> entry_lines e)) [] b =
     [GeckoCode_init\<lparr>user_defined := b, name := name e, creator := creator e,
        codes := map (\<lambda>c. read_code (original_line c)) (codes e), notes' := notes' e\<rparr>]"
proof -
  define h where "h = ''$'' @ name e @ (if creator e \<noteq> [] then '' ['' @ creator e @ '']'' else [])"
  define body where "body = map original_line (codes e) @ map ((#) CHR ''*'') (notes' e)"
  have lines: "entry_lines e = h # body"
    by (simp add: entry_lines_def h_def body_def)
  have h: "is_header_line h"
    by (simp add: is_header_line_def h_def)
  have rh: "read_header b h =
      GeckoCode_init\<lparr>user_defined := b, name := name e, creator := creator e\<rparr>"
    unfolding h_def by (rule read_header_entry_lines [OF assms])
  from assms have cs: "list_all (\<lambda>c. is_code_line (original_line c)) (codes e)"
    and n: "name e \<noteq> []"
    by (simp_all add: round_trip_safe_def)
  have f: "filter is_code_line body = map original_line (codes e)"
    "filter is_note_line body = map ((#) CHR ''*'') (notes' e)"
    "list_all (\<lambda>l. \<not> is_header_line l) body"
    unfolding body_def by (rule filter_code_lines_body [OF cs])+
  have e: "ParseCodes (Map.empty(''Gecko'' \<mapsto> [])) [] b = []"
    by (simp add: ParseCodes_Gecko add_last_eq GeckoCode_init_def)
  from ParseCodes_header_body [OF h f(3), of Map.empty "[]" "[]" b]
  have "ParseCodes (Map.empty(''Gecko'' \<mapsto> h # body)) [] b =
      [(read_header b h)\<lparr>codes := map read_code (filter is_code_line body),
                            notes' := map tl (filter is_note_line body)\<rparr>]"
    by (simp add: e rh n)
  then show ?thesis
    unfolding lines f(1,2) rh by (simp add: comp_def)
qed

text \<open>
  C3, as stated, fails: the text format has no escape for the characters that delimit the
  header. A local entry named a[b with creator c is written as the header $a[b [c] and
  read back as the entry named a.
\<close>

theorem FillIni_ParseCodes_name_with_bracket:
  "map name (ParseCodes (FillIni [''Gecko'' \<mapsto> []]
      [GeckoCode_init\<lparr>name := ''a[b'', creator := ''c'', user_defined := True\<rparr>]) [] True) = [''a'']"
  by (simp add: FillIni_eq entry_lines_def parse_eval)

text \<open>
  C3 (amended): for every user-defined entry with a non-empty name and a non-empty creator
  whose name has no opening bracket and no white space at either end, whose creator has
  no closing bracket, and whose patches' original lines are not empty and begin with
  neither a dollar sign nor an asterisk, writing the one-entry sequence with FillIni and
  reading the entries section back with ParseCodes as the local source yields exactly one
  entry with the same name, creator, sequence of original lines and notes.
\<close>

theorem FillIni_ParseCodes_round_trip:
  assumes "user_defined e" and "name e \<noteq> []" and "creator e \<noteq> []" and "round_trip_safe e"
  shows "map name (ParseCodes (FillIni ini [e]) [] True) = [name e]
     \<and> map creator (ParseCodes (FillIni ini [e]) [] True) = [creator e]
     \<and> map (\<lambda>p. map original_line (codes p)) (ParseCodes (FillIni ini [e]) [] True)
         = [map original_line (codes e)]
     \<and> map notes' (ParseCodes (FillIni ini [e]) [] True) = [notes' e]"
proof -
  have "GetLines (FillIni ini [e]) ''Gecko'' = entry_lines e"
    using assms(1) by (simp add: FillIni_eq GetLines_def)
  then have "ParseCodes (FillIni ini [e]) [] True =
      ParseCodes (Map.empty(''Gecko'' \<mapsto> entry_lines e)) [] True"
    by (rule ParseCodes_same_lines)
  then show ?thesis
    by (simp add: ParseCodes_entry_lines [OF assms(4)] comp_def read_code_original_line)
qed

theorem FillIni_ParseCodes_round_trip_witness:
  "map name (ParseCodes (FillIni Map.empty
      [\<lparr>codes = [\<lparr>address = 0, data = 0, original_line = ''04000000 0000ABCD''\<rparr>,
                 \<lparr>address = 0, data = 0, original_line = ''xyz''\<rparr>],
        name = ''My Code'', creator = ''me'', notes' = [''a note'', []],
        enabled = True, bootstrap_enabled = False, user_defined = True\<rparr>]) [] True) = [''My Code'']
   \<and> map creator (ParseCodes (FillIni Map.empty
      [\<lparr>codes = [\<lparr>address = 0, data = 0, original_line = ''04000000 0000ABCD''\<rparr>,
                 \<lparr>address = 0, data = 0, original_line = ''xyz''\<rparr>],
        name = ''My Code'', creator = ''me'', notes' = [''a note'', []],
        enabled = True, bootstrap_enabled = False, user_defined = True\<rparr>]) [] True) = [''me'']
   \<and> map (\<lambda>p. map original_line (codes p)) (ParseCodes (FillIni Map.empty
      [\<lparr>codes = [\<lparr>address = 0, data = 0, original_line = ''04000000 0000ABCD''\<rparr>,
                 \<lparr>address = 0, data = 0, original_line = ''xyz''\<rparr>],
        name = ''My Code'', creator = ''me'', notes' = [''a note'', []],
        enabled = True, bootstrap_enabled = False, user_defined = True\<rparr>]) [] True)
       = [[''04000000 0000ABCD'', ''xyz'']]
   \<and> map notes' (ParseCodes (FillIni Map.empty
      [\<lparr>codes = [\<lparr>address = 0, data = 0, original_line = ''04000000 0000ABCD''\<rparr>,
                 \<lparr>address = 0, data = 0, original_line = ''xyz''\<rparr>],
        name = ''My Code'', creator = ''me'', notes' = [''a note'', []],
        enabled = True, bootstrap_enabled = False, user_defined = True\<rparr>]) [] True)
       = [[''a note'', []]]"
proof -
  let ?e = "\<lparr>codes = [\<lparr>address = 0, data = 0, original_line = ''04000000 0000ABCD''\<rparr>,
                 \<lparr>address = 0, data = 0, original_line = ''xyz''\<rparr>],
        name = ''My Code'', creator = ''me'', notes' = [''a note'', []],
        enabled = True, bootstrap_enabled = False, user_defined = True\<rparr>"
  have h: "user_defined ?e" "name ?e \<noteq> []" "creator ?e \<noteq> []" "round_trip_safe ?e"
    by (simp_all add: round_trip_safe_def is_strip_space_def is_code_line_def)
  from FillIni_ParseCodes_round_trip [OF h, of Map.empty]
  show ?thesis
    by simp
qed

end
